theory Spec2Isabelle
  imports Main
begin

section \<open>Python values\<close>

text \<open>
  A Python \<open>str\<close> is a sequence of Unicode code points; the source compares and
  searches strings code point by code point, so a string is the list of its code points.
\<close>

type_synonym pystr = "nat list"

text \<open>
  The values a video dictionary of the extraction library holds, as far as the crawler
  looks at them: \<open>None\<close>, integers, strings and lists.
\<close>

datatype pyval = PNone | PInt int | PStr pystr | PList "pyval list"

text \<open>The exceptions of the model; all of them derive from Python's \<open>Exception\<close>.\<close>

datatype error =
  TypeError | AttributeError | DownloadError | DatabaseError | OSError | UnicodeEncodeError

text \<open>A video is a dictionary with string keys.\<close>

type_synonym video = "string \<rightharpoonup> pyval"

definition dict_get :: "video \<Rightarrow> string \<Rightarrow> pyval" where
  \<comment> \<open>\<open>video.get(k)\<close>: \<open>None\<close> for a missing key.\<close>
  "dict_get video k = (case video k of None \<Rightarrow> PNone | Some x \<Rightarrow> x)"

definition dict_get_default :: "video \<Rightarrow> string \<Rightarrow> pyval \<Rightarrow> pyval" where
  \<comment> \<open>\<open>video.get(k, d)\<close>: the default only for a missing key.\<close>
  "dict_get_default video k d = (case video k of None \<Rightarrow> d | Some x \<Rightarrow> x)"

fun py_lt_int :: "pyval \<Rightarrow> int \<Rightarrow> error + bool" where
  \<comment> \<open>\<open>x < k\<close> for an integer literal \<open>k\<close>: only numbers are ordered against it.\<close>
  "py_lt_int (PInt n) k = Inr (n < k)"
| "py_lt_int PNone k = Inl TypeError"
| "py_lt_int (PStr s) k = Inl TypeError"
| "py_lt_int (PList xs) k = Inl TypeError"

fun py_truthy :: "pyval \<Rightarrow> bool" where
  "py_truthy PNone = False"
| "py_truthy (PInt n) = (n \<noteq> 0)"
| "py_truthy (PStr s) = (s \<noteq> [])"
| "py_truthy (PList xs) = (xs \<noteq> [])"

fun hashable :: "pyval \<Rightarrow> bool" where
  "hashable (PList xs) = False"
| "hashable PNone = True"
| "hashable (PInt n) = True"
| "hashable (PStr s) = True"

section \<open>String operations\<close>

fun starts_with :: "pystr \<Rightarrow> pystr \<Rightarrow> bool" where
  \<comment> \<open>\<open>starts_with kw s\<close>: \<open>s\<close> begins with \<open>kw\<close>.\<close>
  "starts_with [] s = True"
| "starts_with (k # ks) [] = False"
| "starts_with (k # ks) (c # cs) = (k = c \<and> starts_with ks cs)"

fun str_contains :: "pystr \<Rightarrow> pystr \<Rightarrow> bool" where
  \<comment> \<open>\<open>kw in s\<close> on strings: \<open>kw\<close> occurs in \<open>s\<close> as a contiguous substring.\<close>
  "str_contains kw [] = (kw = [])"
| "str_contains kw (c # cs) = (starts_with kw (c # cs) \<or> str_contains kw cs)"

definition ascii_lower :: "pystr \<Rightarrow> pystr" where
  \<comment> \<open>\<open>str.lower\<close> as it acts on ASCII text; the instance of the lowercasing parameter
      used in the examples.\<close>
  "ascii_lower s = map (\<lambda>c. if 65 \<le> c \<and> c \<le> 90 then c + 32 else c) s"

section \<open>The validity filter\<close>

definition BLACKLIST_KEYWORDS :: "pystr list" where
  "BLACKLIST_KEYWORDS = [[44305, 44256], [54801, 52268]]"

definition cooking_categories :: "pystr list" where
  \<comment> \<open>\<open>["cooking", "how-to & style", "food & drink"]\<close>\<close>
  "cooking_categories =
     [[99, 111, 111, 107, 105, 110, 103],
      [104, 111, 119, 45, 116, 111, 32, 38, 32, 115, 116, 121, 108, 101],
      [102, 111, 111, 100, 32, 38, 32, 100, 114, 105, 110, 107]]"

definition too_small :: "pyval \<Rightarrow> int \<Rightarrow> error + bool" where
  \<comment> \<open>\<open>x is None or x < k\<close>\<close>
  "too_small x k = (if x = PNone then Inr True else py_lt_int x k)"

definition combined_text :: "video \<Rightarrow> error + pystr" where
  \<comment> \<open>\<open>title + " " + description\<close>: \<open>+\<close> with a string raises unless both are strings.\<close>
  "combined_text video =
     (case dict_get_default video ''title'' (PStr []) of
        PStr title \<Rightarrow>
          (case dict_get_default video ''description'' (PStr []) of
             PStr description \<Rightarrow> Inr (title @ [32] @ description)
           | _ \<Rightarrow> Inl TypeError)
      | _ \<Rightarrow> Inl TypeError)"

fun py_iter :: "pyval \<Rightarrow> error + pyval list" where
  \<comment> \<open>What a \<open>for\<close> over the value yields: a string yields its one-character strings.\<close>
  "py_iter (PList xs) = Inr xs"
| "py_iter (PStr s) = Inr (map (\<lambda>c. PStr [c]) s)"
| "py_iter PNone = Inl TypeError"
| "py_iter (PInt n) = Inl TypeError"

fun any_cooking :: "(pystr \<Rightarrow> pystr) \<Rightarrow> pyval list \<Rightarrow> error + bool" where
  \<comment> \<open>\<open>any(c.lower() in [...] for c in category)\<close>: stops at the first hit; \<open>c.lower()\<close>
      raises on anything but a string.\<close>
  "any_cooking lower [] = Inr False"
| "any_cooking lower (c # cs) =
     (case c of
        PStr s \<Rightarrow> if lower s \<in> set cooking_categories then Inr True else any_cooking lower cs
      | _ \<Rightarrow> Inl AttributeError)"

definition is_hangul :: "nat \<Rightarrow> bool" where
  \<comment> \<open>the character class \<open>[U+AC00-U+D7A3]\<close>\<close>
  "is_hangul c = (44032 \<le> c \<and> c \<le> 55203)"

fun re_search_hangul :: "pyval \<Rightarrow> error + bool" where
  \<comment> \<open>whether \<open>re.search\<close> finds a match of the class; it raises unless given a string\<close>
  "re_search_hangul (PStr s) = Inr (list_ex is_hangul s)"
| "re_search_hangul PNone = Inl TypeError"
| "re_search_hangul (PInt n) = Inl TypeError"
| "re_search_hangul (PList xs) = Inl TypeError"

text \<open>
  \<open>is_valid_video\<close>, check by check in the order of the source. The lowercasing of
  Python's \<open>str.lower\<close> (the Unicode case mapping) is a parameter.
\<close>

definition is_valid_video :: "(pystr \<Rightarrow> pystr) \<Rightarrow> video \<Rightarrow> error + bool" where
  "is_valid_video lower video =
     (case too_small (dict_get video ''duration'') 60 of
        Inl e \<Rightarrow> Inl e
      | Inr True \<Rightarrow> Inr False
      | Inr False \<Rightarrow>
     (case too_small (dict_get video ''view_count'') 5000 of
        Inl e \<Rightarrow> Inl e
      | Inr True \<Rightarrow> Inr False
      | Inr False \<Rightarrow>
     (case combined_text video of
        Inl e \<Rightarrow> Inl e
      | Inr text \<Rightarrow>
          if list_ex (\<lambda>keyword. str_contains keyword text) BLACKLIST_KEYWORDS then Inr False
          else
     (case py_iter (dict_get_default video ''categories'' (PList [])) of
        Inl e \<Rightarrow> Inl e
      | Inr category \<Rightarrow>
     (case any_cooking lower category of
        Inl e \<Rightarrow> Inl e
      | Inr False \<Rightarrow> Inr False
      | Inr True \<Rightarrow>
     (case re_search_hangul (dict_get_default video ''channel'' (PStr [])) of
        Inl e \<Rightarrow> Inl e
      | Inr False \<Rightarrow> Inr False
      | Inr True \<Rightarrow> Inr True))))))"

section \<open>Candidate records and the five rules\<close>

text \<open>
  The data model of a candidate record: the identifier, title, description and channel
  name are strings, the duration and the view count are integers that may be absent
  (a missing key or \<open>None\<close>), the category labels are a list of strings; a field of a
  string or the label list may be missing from the dictionary.
\<close>

fun is_str :: "pyval \<Rightarrow> bool" where
  "is_str (PStr s) = True"
| "is_str PNone = False"
| "is_str (PInt n) = False"
| "is_str (PList xs) = False"

definition opt_int_field :: "video \<Rightarrow> string \<Rightarrow> bool" where
  "opt_int_field video k =
     (case video k of None \<Rightarrow> True | Some PNone \<Rightarrow> True | Some (PInt n) \<Rightarrow> True
      | Some (PStr s) \<Rightarrow> False | Some (PList xs) \<Rightarrow> False)"

definition str_field :: "video \<Rightarrow> string \<Rightarrow> bool" where
  "str_field video k = (case video k of None \<Rightarrow> True | Some x \<Rightarrow> is_str x)"

definition labels_field :: "video \<Rightarrow> string \<Rightarrow> bool" where
  "labels_field video k =
     (case video k of None \<Rightarrow> True | Some (PList xs) \<Rightarrow> list_all is_str xs
      | Some PNone \<Rightarrow> False | Some (PInt n) \<Rightarrow> False | Some (PStr s) \<Rightarrow> False)"

definition candidate_record :: "video \<Rightarrow> bool" where
  "candidate_record video \<longleftrightarrow>
     opt_int_field video ''duration'' \<and> opt_int_field video ''view_count'' \<and>
     str_field video ''title'' \<and> str_field video ''description'' \<and>
     labels_field video ''categories'' \<and> str_field video ''channel''"

text \<open>The five rules, as the specification words them.\<close>

definition text_of :: "video \<Rightarrow> string \<Rightarrow> pystr" where
  \<comment> \<open>a string field; the empty string when the record has none\<close>
  "text_of video k = (case video k of Some (PStr s) \<Rightarrow> s | _ \<Rightarrow> [])"

definition labels_of :: "video \<Rightarrow> pystr list" where
  \<comment> \<open>the category labels; none when the record has no such field\<close>
  "labels_of video =
     (case video ''categories'' of
        Some (PList xs) \<Rightarrow> concat (map (\<lambda>x. case x of PStr s \<Rightarrow> [s] | _ \<Rightarrow> []) xs)
      | _ \<Rightarrow> [])"

definition duration_rule :: "video \<Rightarrow> bool" where
  \<comment> \<open>duration is present and at least 60 seconds\<close>
  "duration_rule video = (case video ''duration'' of Some (PInt d) \<Rightarrow> 60 \<le> d | _ \<Rightarrow> False)"

definition view_count_rule :: "video \<Rightarrow> bool" where
  \<comment> \<open>view count is present and at least 5000\<close>
  "view_count_rule video =
     (case video ''view_count'' of Some (PInt n) \<Rightarrow> 5000 \<le> n | _ \<Rightarrow> False)"

definition blacklist_rule :: "video \<Rightarrow> bool" where
  \<comment> \<open>title, a space and description together contain no blacklisted substring\<close>
  "blacklist_rule video \<longleftrightarrow>
     \<not> list_ex (\<lambda>keyword. str_contains keyword
                    (text_of video ''title'' @ [32] @ text_of video ''description''))
          BLACKLIST_KEYWORDS"

definition category_rule :: "(pystr \<Rightarrow> pystr) \<Rightarrow> video \<Rightarrow> bool" where
  \<comment> \<open>some category label, lowercased, is in the allowlist\<close>
  "category_rule lower video \<longleftrightarrow>
     list_ex (\<lambda>label. lower label \<in> set cooking_categories) (labels_of video)"

definition channel_rule :: "video \<Rightarrow> bool" where
  \<comment> \<open>the channel name has a character of the Hangul syllable range\<close>
  "channel_rule video \<longleftrightarrow> list_ex is_hangul (text_of video ''channel'')"

text \<open>Records used as examples: one that passes every rule, and variations of it.\<close>

definition sample_video :: video where
  "sample_video =
     [''id'' \<mapsto> PStr [97, 49], ''title'' \<mapsto> PStr [54620, 49885],
      ''description'' \<mapsto> PStr [], ''duration'' \<mapsto> PInt 60, ''view_count'' \<mapsto> PInt 5000,
      ''categories'' \<mapsto> PList [PStr [67, 111, 111, 107, 105, 110, 103]],
      ''channel'' \<mapsto> PStr [44032]]"

section \<open>The history store and the search queries\<close>

text \<open>
  \<open>get_crawled_video_ids\<close>: the argument is what the query of the identifier column
  gives, an exception or the column's values. Building the set raises on an unhashable
  value, inside the \<open>try\<close>; every exception gives the empty set.
\<close>

definition get_crawled_video_ids :: "error + pyval list \<Rightarrow> pyval set" where
  "get_crawled_video_ids rows =
     (case rows of
        Inl e \<Rightarrow> {}
      | Inr ids \<Rightarrow> if list_all hashable ids then set ids else {})"

definition default_queries :: "pystr list" where
  "default_queries = [[54620, 49885], [51473, 49885], [50577, 49885]]"

definition recipe_suffix :: pystr where
  "recipe_suffix = [32, 47112, 49884, 54588]"

definition making_suffix :: pystr where
  "making_suffix = [32, 47564, 46308, 44592]"

definition simple_cooking :: pystr where
  "simple_cooking = [44036, 45800, 54620, 32, 50836, 47532]"

definition single_cooking :: pystr where
  "single_cooking = [51088, 52712, 49373, 32, 50836, 47532]"

text \<open>
  \<open>get_search_queries\<close>: the argument is what reading the dish types gives, an exception
  or their names. The result is a set; the order in which the caller walks it is not fixed.
\<close>

definition get_search_queries :: "error + pystr list \<Rightarrow> pystr set" where
  "get_search_queries dish_names =
     (let base_queries = (case dish_names of Inl e \<Rightarrow> default_queries | Inr names \<Rightarrow> names);
          extended_queries =
            fold (\<lambda>query qs. insert (query @ making_suffix) (insert (query @ recipe_suffix) qs))
              base_queries {}
      in insert single_cooking (insert simple_cooking extended_queries))"

section \<open>Fetching\<close>

fun str_nat :: "nat \<Rightarrow> pystr" where
  \<comment> \<open>the decimal digits of a number\<close>
  "str_nat n = (if n < 10 then [48 + n] else str_nat (n div 10) @ [48 + n mod 10])"

declare str_nat.simps [simp del]

definition str_int :: "int \<Rightarrow> pystr" where
  "str_int i = (if i < 0 then 45 # str_nat (nat (- i)) else str_nat (nat i))"

text \<open>
  What \<open>extract_info\<close> returns: \<open>None\<close>, or a dictionary that may have an \<open>entries\<close>
  key. The extractor is a parameter: from the \<open>playlistend\<close> option and the search
  string to an exception or a result.
\<close>

datatype ydl_result = NoResult | Result "video list option"

type_synonym extractor = "int \<Rightarrow> pystr \<Rightarrow> error + ydl_result"

definition search_url :: "pystr \<Rightarrow> int \<Rightarrow> pystr" where
  \<comment> \<open>\<open>f"ytsearch{max_videos}:{query}"\<close>\<close>
  "search_url query max_videos =
     [121, 116, 115, 101, 97, 114, 99, 104] @ str_int max_videos @ [58] @ query"

definition get_video_info :: "extractor \<Rightarrow> pystr \<Rightarrow> int \<Rightarrow> video list" where
  \<comment> \<open>\<open>result.get\<close> on \<open>None\<close> raises inside the \<open>try\<close>, so that gives \<open>[]\<close> as well.\<close>
  "get_video_info ydl query max_videos =
     (case ydl max_videos (search_url query max_videos) of
        Inl e \<Rightarrow> []
      | Inr NoResult \<Rightarrow> []
      | Inr (Result None) \<Rightarrow> []
      | Inr (Result (Some entries)) \<Rightarrow> entries)"

section \<open>The main block\<close>

text \<open>
  The state of the collection loop: the videos to process, in order, and the set of seen
  identifiers. One video: \<open>if video_id and video_id not in crawled_ids\<close>; the membership
  test hashes the identifier and raises on a list.
\<close>

type_synonym collect_state = "video list \<times> pyval set"

definition collect_video :: "video \<Rightarrow> collect_state \<Rightarrow> error + collect_state" where
  "collect_video video st =
     (case st of (all_videos_to_process, crawled_ids) \<Rightarrow>
        let video_id = dict_get video ''id'' in
        if \<not> py_truthy video_id then Inr st
        else if \<not> hashable video_id then Inl TypeError
        else if video_id \<in> crawled_ids then Inr st
        else Inr (all_videos_to_process @ [video], insert video_id crawled_ids))"

fun collect_videos :: "video list \<Rightarrow> collect_state \<Rightarrow> error + collect_state" where
  "collect_videos [] st = Inr st"
| "collect_videos (video # videos) st =
     (case collect_video video st of Inl e \<Rightarrow> Inl e | Inr st' \<Rightarrow> collect_videos videos st')"

fun collection :: "extractor \<Rightarrow> pystr list \<Rightarrow> collect_state \<Rightarrow> error + collect_state" where
  "collection ydl [] st = Inr st"
| "collection ydl (query # queries) st =
     (case collect_videos (get_video_info ydl query 20) st of
        Inl e \<Rightarrow> Inl e
      | Inr st' \<Rightarrow> collection ydl queries st')"

fun filter_valid :: "(pystr \<Rightarrow> pystr) \<Rightarrow> video list \<Rightarrow> error + video list" where
  \<comment> \<open>\<open>[v for v in all_videos_to_process if is_valid_video(v)]\<close>\<close>
  "filter_valid lower [] = Inr []"
| "filter_valid lower (v # vs) =
     (case is_valid_video lower v of
        Inl e \<Rightarrow> Inl e
      | Inr keep \<Rightarrow>
          (case filter_valid lower vs of
             Inl e \<Rightarrow> Inl e
           | Inr rest \<Rightarrow> Inr (if keep then v # rest else rest)))"

definition filtered_videos ::
  "(pystr \<Rightarrow> pystr) \<Rightarrow> extractor \<Rightarrow> pystr list \<Rightarrow> pyval set \<Rightarrow> error + video list" where
  \<comment> \<open>steps 3 and 4 of the main block, from the queries in the order walked and the
      seed of seen identifiers\<close>
  "filtered_videos lower ydl search_queries crawled_ids =
     (case collection ydl search_queries ([], crawled_ids) of
        Inl e \<Rightarrow> Inl e
      | Inr (all_videos_to_process, seen) \<Rightarrow> filter_valid lower all_videos_to_process)"

text \<open>
  Writing the output. The file is a sequence of bytes, \<open>None\<close> while it does not exist.
  \<open>open(path, 'w', encoding='utf-8')\<close> either raises and leaves the file alone, or
  truncates it. \<open>json.dump\<close> then writes the chunks of its encoder one after the other.
  The text layer turns each chunk into bytes, raising on a chunk it cannot encode; the
  bytes go through the buffers to the file in order, and the device takes them up to some
  number of bytes and no further, cutting wherever that number falls. The \<open>with\<close> block
  closes the file also when a write raises, flushing what the device still takes; an
  error of the device then replaces the earlier exception. After the block the file holds
  the bytes the device took.

  The chunks of the JSON encoder, the encoding of a chunk by the text layer (UTF-8 after
  the newline translation of the platform), whether the open succeeds and the number of
  bytes the device takes (\<open>None\<close>: all of them) are parameters.
\<close>

type_synonym byte = nat

fun write_chunks ::
  "(pystr \<Rightarrow> error + byte list) \<Rightarrow> nat option \<Rightarrow> pystr list \<Rightarrow> byte list
     \<Rightarrow> (error + unit) \<times> byte list" where
  "write_chunks enc room [] content = (Inr (), content)"
| "write_chunks enc room (chunk # chunks) content =
     (case enc chunk of
        Inl e \<Rightarrow> (Inl e, content)
      | Inr bytes \<Rightarrow>
          (case room of
             None \<Rightarrow> write_chunks enc room chunks (content @ bytes)
           | Some n \<Rightarrow>
               if length (content @ bytes) \<le> n
               then write_chunks enc room chunks (content @ bytes)
               else (Inl OSError, take n (content @ bytes))))"

definition write_output ::
  "bool \<Rightarrow> (pystr \<Rightarrow> error + byte list) \<Rightarrow> nat option \<Rightarrow> pystr list \<Rightarrow> byte list option
     \<Rightarrow> (error + unit) \<times> byte list option" where
  "write_output opens enc room chunks file =
     (if \<not> opens then (Inl OSError, file)
      else case write_chunks enc room chunks [] of
             (status, content) \<Rightarrow> (status, Some content))"

text \<open>UTF-8, the encoding the source asks for, without newline translation (as on POSIX).\<close>

definition utf8_char :: "nat \<Rightarrow> error + byte list" where
  \<comment> \<open>surrogates cannot be encoded\<close>
  "utf8_char c =
     (if c < 128 then Inr [c]
      else if c < 2048 then Inr [192 + c div 64, 128 + c mod 64]
      else if 55296 \<le> c \<and> c \<le> 57343 then Inl UnicodeEncodeError
      else if c < 65536
        then Inr [224 + c div 4096, 128 + c div 64 mod 64, 128 + c mod 64]
      else if c < 1114112
        then Inr [240 + c div 262144, 128 + c div 4096 mod 64, 128 + c div 64 mod 64,
                  128 + c mod 64]
      else Inl UnicodeEncodeError)"

fun utf8 :: "pystr \<Rightarrow> error + byte list" where
  "utf8 [] = Inr []"
| "utf8 (c # cs) =
     (case utf8_char c of
        Inl e \<Rightarrow> Inl e
      | Inr bytes \<Rightarrow> (case utf8 cs of Inl e \<Rightarrow> Inl e | Inr rest \<Rightarrow> Inr (bytes @ rest)))"

record env =
  str_lower :: "pystr \<Rightarrow> pystr"
  recipe_ids :: "error + pyval list"
  dish_names :: "error + pystr list"
  set_order :: "pystr set \<Rightarrow> pystr list"
  extract_info :: extractor
  iterencode :: "video list \<Rightarrow> pystr list"
  can_open :: bool
  encode :: "pystr \<Rightarrow> error + byte list"
  capacity :: "nat option"


section \<open>Notions used in the properties\<close>

definition video_id :: "video \<Rightarrow> pyval" where
  \<comment> \<open>the identifier the main block reads\<close>
  "video_id video = dict_get video ''id''"

definition no_identifier :: "video \<Rightarrow> bool" where
  \<comment> \<open>the identifier is absent (a missing key or \<open>None\<close>) or the empty string\<close>
  "no_identifier video \<longleftrightarrow> video_id video = PNone \<or> video_id video = PStr []"

definition fails :: "extractor \<Rightarrow> pystr \<Rightarrow> bool" where
  \<comment> \<open>the extraction raises on the query, called as the main block calls it\<close>
  "fails ydl query = isl (ydl 20 (search_url query 20))"

definition settled :: "pyval set \<Rightarrow> video \<Rightarrow> bool" where
  \<comment> \<open>the loop passes over the video: no identifier to speak of, or one already seen\<close>
  "settled ids v \<longleftrightarrow> (py_truthy (video_id v) \<longrightarrow> hashable (video_id v) \<and> video_id v \<in> ids)"

fun encoded_bytes :: "(pystr \<Rightarrow> error + byte list) \<Rightarrow> pystr list \<Rightarrow> byte list" where
  \<comment> \<open>the bytes of the document, up to the first chunk that cannot be encoded\<close>
  "encoded_bytes enc [] = []"
| "encoded_bytes enc (chunk # chunks) =
     (case enc chunk of Inl e \<Rightarrow> [] | Inr bytes \<Rightarrow> bytes @ encoded_bytes enc chunks)"

definition collect_inv :: "pyval set \<Rightarrow> collect_state \<Rightarrow> bool" where
  \<comment> \<open>the invariant of the collection loop, for the seed of seen identifiers\<close>
  "collect_inv seed st \<longleftrightarrow>
     distinct (map video_id (fst st)) \<and> snd st = seed \<union> video_id ` set (fst st) \<and>
     (\<forall>v \<in> set (fst st). py_truthy (video_id v) \<and> video_id v \<notin> seed)"

text \<open>A run used as an example: three queries, one of which fails.\<close>

definition second_video :: video where
  "second_video = sample_video(''id'' \<mapsto> PStr [98, 50])"

definition anonymous_video :: video where
  "anonymous_video = sample_video(''id'' \<mapsto> PStr [])"

definition seen_video :: video where
  "seen_video = sample_video(''id'' \<mapsto> PStr [111, 108, 100])"

definition query_a :: pystr where
  "query_a = [54620, 49885] @ recipe_suffix"

definition query_b :: pystr where
  "query_b = [54620, 49885] @ making_suffix"

definition sample_ydl :: extractor where
  "sample_ydl n url =
     (if url = search_url query_b 20 then Inr (Result (Some [sample_video, second_video]))
      else if url = search_url simple_cooking 20
        then Inr (Result (Some [second_video, anonymous_video, seen_video, sample_video]))
      else Inl DownloadError)"

definition sample_seed :: "pyval set" where
  "sample_seed = get_crawled_video_ids (Inr [PStr [111, 108, 100]])"





section \<open>Substrings\<close>

lemma starts_with_iff: "starts_with kw s \<longleftrightarrow> (\<exists>b. s = kw @ b)"
  by (induction kw s rule: starts_with.induct) auto

text \<open>\<open>str_contains\<close> is the substring relation.\<close>

lemma str_contains_iff: "str_contains kw s \<longleftrightarrow> (\<exists>a b. s = a @ kw @ b)"
proof (induction s)
  case Nil
  then show ?case by auto
next
  case (Cons c cs)
  have "(\<exists>a b. c # cs = a @ kw @ b) \<longleftrightarrow> (\<exists>b. c # cs = kw @ b) \<or> (\<exists>a b. cs = a @ kw @ b)"
    (is "?L \<longleftrightarrow> ?P \<or> ?Q")
  proof
    assume ?L
    then obtain a b where ab: "c # cs = a @ kw @ b" by blast
    show "?P \<or> ?Q"
    proof (cases a)
      case Nil
      with ab show ?thesis by auto
    next
      case (Cons x a')
      with ab have "cs = a' @ kw @ b" by simp
      then show ?thesis by blast
    qed
  next
    assume "?P \<or> ?Q"
    then show ?L
    proof
      assume ?P
      then obtain b where "c # cs = [] @ kw @ b" by auto
      then show ?L by blast
    next
      assume ?Q
      then obtain a b where "cs = a @ kw @ b" by blast
      then have "c # cs = (c # a) @ kw @ b" by simp
      then show ?L by blast
    qed
  qed
  with Cons show ?case by (simp add: starts_with_iff)
qed

section \<open>The validity filter on candidate records\<close>

lemma too_small_absent: "too_small PNone k = Inr True"
  by (simp add: too_small_def)

lemma too_small_int: "too_small (PInt d) k = Inr (d < k)"
  by (simp add: too_small_def)

lemma too_small_opt:
  "opt_int_field v k \<Longrightarrow>
   too_small (dict_get v k) n = Inr (case v k of Some (PInt d) \<Rightarrow> d < n | _ \<Rightarrow> True)"
  by (auto simp: opt_int_field_def too_small_def dict_get_def split: option.splits pyval.splits)

lemma combined_text_str:
  "str_field v ''title'' \<Longrightarrow> str_field v ''description'' \<Longrightarrow>
   combined_text v = Inr (text_of v ''title'' @ [32] @ text_of v ''description'')"
  by (auto simp: str_field_def combined_text_def dict_get_default_def text_of_def
      split: option.splits pyval.splits)

lemma any_cooking_strs:
  "list_all is_str xs \<Longrightarrow>
   any_cooking lower xs = Inr (list_ex (\<lambda>l. lower l \<in> set cooking_categories)
      (concat (map (\<lambda>x. case x of PStr s \<Rightarrow> [s] | _ \<Rightarrow> []) xs)))"
  by (induction xs) (auto split: pyval.splits)

lemma categories_labels:
  "labels_field v ''categories'' \<Longrightarrow>
   \<exists>xs. py_iter (dict_get_default v ''categories'' (PList [])) = Inr xs \<and>
      any_cooking lower xs = Inr (category_rule lower v)"
  by (auto simp: labels_field_def dict_get_default_def category_rule_def labels_of_def
      any_cooking_strs split: option.splits pyval.splits)

lemma channel_str:
  "str_field v ''channel'' \<Longrightarrow>
   re_search_hangul (dict_get_default v ''channel'' (PStr [])) = Inr (channel_rule v)"
  by (auto simp: str_field_def dict_get_default_def channel_rule_def text_of_def
      split: option.splits pyval.splits)

text \<open>
  On a candidate record no check raises, and each check of the source decides one rule.
\<close>

lemma is_valid_video_rules:
  assumes "candidate_record v"
  shows "is_valid_video lower v =
         Inr (duration_rule v \<and> view_count_rule v \<and> blacklist_rule v \<and>
              category_rule lower v \<and> channel_rule v)"
proof -
  from assms have d: "too_small (dict_get v ''duration'') 60 = Inr (\<not> duration_rule v)"
    by (auto simp: candidate_record_def too_small_opt duration_rule_def
        split: option.splits pyval.splits)
  from assms have w: "too_small (dict_get v ''view_count'') 5000 = Inr (\<not> view_count_rule v)"
    by (auto simp: candidate_record_def too_small_opt view_count_rule_def
        split: option.splits pyval.splits)
  from assms have t:
    "combined_text v = Inr (text_of v ''title'' @ [32] @ text_of v ''description'')"
    by (simp add: candidate_record_def combined_text_str)
  from assms obtain xs where c: "py_iter (dict_get_default v ''categories'' (PList [])) = Inr xs"
      "any_cooking lower xs = Inr (category_rule lower v)"
    using categories_labels[of v lower] by (auto simp: candidate_record_def)
  from assms have h:
    "re_search_hangul (dict_get_default v ''channel'' (PStr [])) = Inr (channel_rule v)"
    by (simp add: candidate_record_def channel_str)
  show ?thesis
    by (simp add: is_valid_video_def d w t c h blacklist_rule_def split: bool.splits)
qed

lemmas sample_defs = sample_video_def candidate_record_def opt_int_field_def str_field_def
  labels_field_def duration_rule_def view_count_rule_def blacklist_rule_def category_rule_def
  channel_rule_def text_of_def labels_of_def BLACKLIST_KEYWORDS_def cooking_categories_def
  ascii_lower_def is_hangul_def dict_get_def

lemma sample_video_record: "candidate_record sample_video"
  by (simp add: sample_defs)

lemma sample_video_rules:
  "duration_rule sample_video \<and> view_count_rule sample_video \<and> blacklist_rule sample_video \<and>
   category_rule ascii_lower sample_video \<and> channel_rule sample_video"
  by (simp add: sample_defs)

text \<open>
  C1. For every candidate record, \<open>is_valid_video\<close> returns a boolean, and it is true
  if and only if all five rules hold: the duration is present and at least 60, the view
  count is present and at least 5000, title and description joined by a space contain no
  blacklisted substring, some category label is in the allowlist after lowercasing, and
  the channel name has a character of the Hangul range.
\<close>

theorem is_valid_video_five_rules:
  assumes "candidate_record v"
  shows "is_valid_video lower v =
         Inr (duration_rule v \<and> view_count_rule v \<and> blacklist_rule v \<and>
              category_rule lower v \<and> channel_rule v)"
  using assms by (rule is_valid_video_rules)

theorem is_valid_video_five_rules_witness:
  "candidate_record sample_video \<and> is_valid_video ascii_lower sample_video = Inr True"
proof -
  have h: "candidate_record sample_video" by (rule sample_video_record)
  from is_valid_video_five_rules[OF h, of ascii_lower] sample_video_rules h
  show ?thesis by simp
qed

text \<open>
  C4. A record whose duration is absent (a missing key or \<open>None\<close>) or below 60 is
  rejected, whatever its other fields hold; a candidate record with duration 60 that
  satisfies the other four rules is accepted.
\<close>

theorem duration_floor:
  "(dict_get v ''duration'' = PNone \<or> (\<exists>d. v ''duration'' = Some (PInt d) \<and> d < 60)
      \<longrightarrow> is_valid_video lower v = Inr False) \<and>
   (candidate_record v \<and> v ''duration'' = Some (PInt 60) \<and> view_count_rule v \<and>
    blacklist_rule v \<and> category_rule lower v \<and> channel_rule v
      \<longrightarrow> is_valid_video lower v = Inr True)"
proof (intro conjI impI)
  assume "dict_get v ''duration'' = PNone \<or> (\<exists>d. v ''duration'' = Some (PInt d) \<and> d < 60)"
  then have "too_small (dict_get v ''duration'') 60 = Inr True"
    by (auto simp: too_small_absent too_small_int dict_get_def)
  then show "is_valid_video lower v = Inr False"
    by (simp add: is_valid_video_def)
next
  assume a: "candidate_record v \<and> v ''duration'' = Some (PInt 60) \<and> view_count_rule v \<and>
    blacklist_rule v \<and> category_rule lower v \<and> channel_rule v"
  then have "duration_rule v" by (simp add: duration_rule_def)
  with a show "is_valid_video lower v = Inr True"
    by (simp add: is_valid_video_rules)
qed

theorem duration_floor_witness:
  "is_valid_video ascii_lower (sample_video(''duration'' \<mapsto> PInt 59)) = Inr False \<and>
   is_valid_video ascii_lower (sample_video(''duration'' := None)) = Inr False \<and>
   sample_video ''duration'' = Some (PInt 60) \<and>
   is_valid_video ascii_lower sample_video = Inr True"
proof -
  have a: "\<exists>d. (sample_video(''duration'' \<mapsto> PInt 59)) ''duration'' = Some (PInt d) \<and> d < 60"
    by simp
  have b: "dict_get (sample_video(''duration'' := None)) ''duration'' = PNone"
    by (simp add: dict_get_def)
  have c: "sample_video ''duration'' = Some (PInt 60)"
    by (simp add: sample_video_def)
  from duration_floor[of "sample_video(''duration'' \<mapsto> PInt 59)" ascii_lower] a
  have 1: "is_valid_video ascii_lower (sample_video(''duration'' \<mapsto> PInt 59)) = Inr False"
    by blast
  from duration_floor[of "sample_video(''duration'' := None)" ascii_lower] b
  have 2: "is_valid_video ascii_lower (sample_video(''duration'' := None)) = Inr False"
    by blast
  from duration_floor[of sample_video ascii_lower] c sample_video_record sample_video_rules
  have 3: "is_valid_video ascii_lower sample_video = Inr True"
    by blast
  from 1 2 3 c show ?thesis by blast
qed

text \<open>
  C5. A candidate record whose view count is absent or below 5000 is rejected; one with
  view count 5000 that satisfies the other four rules is accepted.
\<close>

theorem view_count_floor:
  "(candidate_record v \<and>
    (dict_get v ''view_count'' = PNone \<or> (\<exists>n. v ''view_count'' = Some (PInt n) \<and> n < 5000))
      \<longrightarrow> is_valid_video lower v = Inr False) \<and>
   (candidate_record v \<and> v ''view_count'' = Some (PInt 5000) \<and> duration_rule v \<and>
    blacklist_rule v \<and> category_rule lower v \<and> channel_rule v
      \<longrightarrow> is_valid_video lower v = Inr True)"
proof (intro conjI impI)
  assume a: "candidate_record v \<and>
    (dict_get v ''view_count'' = PNone \<or> (\<exists>n. v ''view_count'' = Some (PInt n) \<and> n < 5000))"
  then have "\<not> view_count_rule v"
    by (auto simp: view_count_rule_def dict_get_def split: option.splits pyval.splits)
  with a show "is_valid_video lower v = Inr False"
    by (simp add: is_valid_video_rules)
next
  assume a: "candidate_record v \<and> v ''view_count'' = Some (PInt 5000) \<and> duration_rule v \<and>
    blacklist_rule v \<and> category_rule lower v \<and> channel_rule v"
  then have "view_count_rule v" by (simp add: view_count_rule_def)
  with a show "is_valid_video lower v = Inr True"
    by (simp add: is_valid_video_rules)
qed

theorem view_count_floor_witness:
  "candidate_record (sample_video(''view_count'' \<mapsto> PInt 4999)) \<and>
   is_valid_video ascii_lower (sample_video(''view_count'' \<mapsto> PInt 4999)) = Inr False \<and>
   candidate_record (sample_video(''view_count'' := None)) \<and>
   is_valid_video ascii_lower (sample_video(''view_count'' := None)) = Inr False \<and>
   sample_video ''view_count'' = Some (PInt 5000) \<and>
   is_valid_video ascii_lower sample_video = Inr True"
proof -
  have a: "candidate_record (sample_video(''view_count'' \<mapsto> PInt 4999))"
    by (simp add: sample_defs)
  have a': "\<exists>n. (sample_video(''view_count'' \<mapsto> PInt 4999)) ''view_count'' = Some (PInt n) \<and>
      n < 5000"
    by simp
  have b: "candidate_record (sample_video(''view_count'' := None))"
    by (simp add: sample_defs)
  have b': "dict_get (sample_video(''view_count'' := None)) ''view_count'' = PNone"
    by (simp add: dict_get_def)
  have c: "sample_video ''view_count'' = Some (PInt 5000)"
    by (simp add: sample_video_def)
  from view_count_floor[of "sample_video(''view_count'' \<mapsto> PInt 4999)" ascii_lower] a a'
  have 1: "is_valid_video ascii_lower (sample_video(''view_count'' \<mapsto> PInt 4999)) = Inr False"
    by blast
  from view_count_floor[of "sample_video(''view_count'' := None)" ascii_lower] b b'
  have 2: "is_valid_video ascii_lower (sample_video(''view_count'' := None)) = Inr False"
    by blast
  from view_count_floor[of sample_video ascii_lower] c sample_video_record sample_video_rules
  have 3: "is_valid_video ascii_lower sample_video = Inr True"
    by blast
  from 1 2 3 a b c show ?thesis by blast
qed

lemma is_valid_video_cong:
  assumes "dict_get v ''duration'' = dict_get v' ''duration''"
    and "dict_get v ''view_count'' = dict_get v' ''view_count''"
    and "combined_text v = combined_text v'"
    and "dict_get_default v ''categories'' (PList []) =
         dict_get_default v' ''categories'' (PList [])"
    and "dict_get_default v ''channel'' (PStr []) = dict_get_default v' ''channel'' (PStr [])"
  shows "is_valid_video lower v = is_valid_video lower v'"
  by (simp only: is_valid_video_def assms)

lemma combined_text_categories:
  "combined_text (v(''categories'' \<mapsto> x)) = combined_text v"
proof -
  have t: "dict_get_default (v(''categories'' \<mapsto> x)) ''title'' (PStr []) =
           dict_get_default v ''title'' (PStr [])"
    by (simp add: dict_get_default_def)
  have d: "dict_get_default (v(''categories'' \<mapsto> x)) ''description'' (PStr []) =
           dict_get_default v ''description'' (PStr [])"
    by (simp add: dict_get_default_def)
  show ?thesis by (simp only: combined_text_def t d)
qed

text \<open>
  C10. A candidate record without the \<open>categories\<close> key is judged as the same record
  with an empty label list, and is rejected.
\<close>

theorem missing_categories_rejected:
  assumes "candidate_record v" and "v ''categories'' = None"
  shows "is_valid_video lower v = is_valid_video lower (v(''categories'' \<mapsto> PList [])) \<and>
         is_valid_video lower v = Inr False"
proof
  show "is_valid_video lower v = is_valid_video lower (v(''categories'' \<mapsto> PList []))"
    using assms(2)
    by (intro is_valid_video_cong)
       (simp_all add: dict_get_def dict_get_default_def combined_text_categories)
  from assms(2) have "\<not> category_rule lower v"
    by (simp add: category_rule_def labels_of_def)
  with assms(1) show "is_valid_video lower v = Inr False"
    by (simp add: is_valid_video_rules)
qed

theorem missing_categories_rejected_witness:
  "candidate_record (sample_video(''categories'' := None)) \<and>
   (sample_video(''categories'' := None)) ''categories'' = None \<and>
   is_valid_video ascii_lower (sample_video(''categories'' := None)) = Inr False"
proof -
  have a: "candidate_record (sample_video(''categories'' := None))"
    by (simp add: sample_defs)
  have b: "(sample_video(''categories'' := None)) ''categories'' = None"
    by simp
  from missing_categories_rejected[OF a b, of ascii_lower] a b show ?thesis by blast
qed

section \<open>The collection loop\<close>

lemma collect_video_eq:
  "collect_video v (vs, ids) =
     (if \<not> py_truthy (video_id v) then Inr (vs, ids)
      else if \<not> hashable (video_id v) then Inl TypeError
      else if video_id v \<in> ids then Inr (vs, ids)
      else Inr (vs @ [v], insert (video_id v) ids))"
  by (simp add: collect_video_def video_id_def Let_def)

lemma collect_video_cases:
  assumes "collect_video v (vs, ids) = Inr st'"
  shows "(st' = (vs, ids) \<and> settled ids v) \<or>
         (st' = (vs @ [v], insert (video_id v) ids) \<and> py_truthy (video_id v) \<and>
          hashable (video_id v) \<and> video_id v \<notin> ids)"
  using assms by (auto simp: collect_video_eq settled_def split: if_splits)

text \<open>Every step of the loop keeps the invariant, so both loops do.\<close>

lemma collect_video_inv:
  assumes "collect_video v st = Inr st'" and "collect_inv seed st"
  shows "collect_inv seed st'"
proof -
  obtain vs ids where st: "st = (vs, ids)" by (cases st)
  from collect_video_cases[OF assms(1)[unfolded st]] assms(2) st
  show ?thesis by (auto simp: collect_inv_def)
qed

lemma collect_videos_inv:
  "collect_videos videos st = Inr st' \<Longrightarrow> collect_inv seed st \<Longrightarrow> collect_inv seed st'"
proof (induction videos arbitrary: st)
  case Nil
  then show ?case by simp
next
  case (Cons v videos)
  then show ?case by (auto split: sum.splits dest: collect_video_inv)
qed

lemma collection_inv:
  "collection ydl qs st = Inr st' \<Longrightarrow> collect_inv seed st \<Longrightarrow> collect_inv seed st'"
proof (induction qs arbitrary: st)
  case Nil
  then show ?case by simp
next
  case (Cons q qs)
  then show ?case by (auto split: sum.splits dest: collect_videos_inv)
qed

lemma collect_inv_start: "collect_inv seed ([], seed)"
  by (simp add: collect_inv_def)

lemma filter_valid_filter:
  "filter_valid lower vs = Inr r \<Longrightarrow> r = filter (\<lambda>v. is_valid_video lower v = Inr True) vs"
  by (induction vs arbitrary: r) (auto split: sum.splits if_splits)

text \<open>What a completed pass leaves behind: the set only grows, and every video fetched is settled.\<close>

lemma collect_video_seen:
  assumes "collect_video v (vs, ids) = Inr (vs', ids')"
  shows "ids \<subseteq> ids' \<and> settled ids' v"
  using collect_video_cases[OF assms] by (auto simp: settled_def)

lemma settled_mono: "settled ids v \<Longrightarrow> ids \<subseteq> ids' \<Longrightarrow> settled ids' v"
  by (auto simp: settled_def)

lemma collect_videos_seen:
  "collect_videos videos (vs, ids) = Inr (vs', ids') \<Longrightarrow>
   ids \<subseteq> ids' \<and> (\<forall>v \<in> set videos. settled ids' v)"
proof (induction videos arbitrary: vs ids)
  case Nil
  then show ?case by simp
next
  case (Cons v videos)
  from Cons.prems obtain vs1 ids1 where 1: "collect_video v (vs, ids) = Inr (vs1, ids1)"
    and 2: "collect_videos videos (vs1, ids1) = Inr (vs', ids')"
    by (auto split: sum.splits)
  from collect_video_seen[OF 1] Cons.IH[OF 2] show ?case
    by (auto intro: settled_mono)
qed

lemma collection_seen:
  "collection ydl qs (vs, ids) = Inr (vs', ids') \<Longrightarrow>
   ids \<subseteq> ids' \<and> (\<forall>q \<in> set qs. \<forall>v \<in> set (get_video_info ydl q 20). settled ids' v)"
proof (induction qs arbitrary: vs ids)
  case Nil
  then show ?case by simp
next
  case (Cons q qs)
  from Cons.prems obtain vs1 ids1 where
    1: "collect_videos (get_video_info ydl q 20) (vs, ids) = Inr (vs1, ids1)"
    and 2: "collection ydl qs (vs1, ids1) = Inr (vs', ids')"
    by (auto split: sum.splits)
  from collect_videos_seen[OF 1] Cons.IH[OF 2] show ?case
    by (auto intro: settled_mono)
qed

lemma collect_video_settled: "settled ids v \<Longrightarrow> collect_video v (vs, ids) = Inr (vs, ids)"
  by (auto simp: collect_video_eq settled_def)

lemma collect_videos_settled:
  "\<forall>v \<in> set videos. settled ids v \<Longrightarrow> collect_videos videos (vs, ids) = Inr (vs, ids)"
  by (induction videos) (auto simp: collect_video_settled)

lemma collection_settled:
  "\<forall>q \<in> set qs. \<forall>v \<in> set (get_video_info ydl q 20). settled ids v \<Longrightarrow>
   collection ydl qs (vs, ids) = Inr (vs, ids)"
  by (induction qs) (auto simp: collect_videos_settled)

text \<open>A query whose extraction raises adds nothing.\<close>

lemma collection_skip_failed:
  "collection ydl qs st = collection ydl (filter (\<lambda>q. \<not> fails ydl q) qs) st"
proof (induction qs arbitrary: st)
  case Nil
  then show ?case by simp
next
  case (Cons q qs)
  show ?case
  proof (cases "fails ydl q")
    case True
    then have "get_video_info ydl q 20 = []"
      by (auto simp: fails_def get_video_info_def isl_def)
    with True Cons.IH show ?thesis by simp
  next
    case False
    with Cons.IH show ?thesis by (simp split: sum.splits)
  qed
qed

subsection \<open>The example run\<close>

lemma str_int_20: "str_int 20 = [50, 48]"
  by (simp add: str_int_def str_nat.simps)

lemma search_url_20: "search_url q 20 = [121, 116, 115, 101, 97, 114, 99, 104, 50, 48, 58] @ q"
  by (simp add: search_url_def str_int_20)

lemmas query_defs = query_a_def query_b_def simple_cooking_def recipe_suffix_def making_suffix_def

lemma sample_ydl_a: "sample_ydl 20 (search_url query_a 20) = Inl DownloadError"
  by (simp add: sample_ydl_def search_url_20 query_defs)

lemma sample_info_a: "get_video_info sample_ydl query_a 20 = []"
  by (simp add: get_video_info_def sample_ydl_a)

lemma sample_info_b: "get_video_info sample_ydl query_b 20 = [sample_video, second_video]"
  by (simp add: get_video_info_def sample_ydl_def)

lemma sample_info_c:
  "get_video_info sample_ydl simple_cooking 20 =
     [second_video, anonymous_video, seen_video, sample_video]"
  by (simp add: get_video_info_def sample_ydl_def search_url_20 query_defs)

lemma sample_fails: "fails sample_ydl query_a" "\<not> fails sample_ydl query_b"
  by (simp_all add: fails_def sample_ydl_a) (simp add: sample_ydl_def)

lemma sample_ids:
  "video_id sample_video = PStr [97, 49]" "video_id second_video = PStr [98, 50]"
  "video_id anonymous_video = PStr []" "video_id seen_video = PStr [111, 108, 100]"
  by (simp_all add: video_id_def dict_get_def sample_video_def second_video_def
      anonymous_video_def seen_video_def)

lemma sample_seed_eq: "sample_seed = {PStr [111, 108, 100]}"
  by (simp add: sample_seed_def get_crawled_video_ids_def)

lemma sample_collection:
  "collection sample_ydl [query_a, query_b, simple_cooking] ([], sample_seed) =
     Inr ([sample_video, second_video], {PStr [98, 50], PStr [97, 49], PStr [111, 108, 100]})"
  by (simp add: sample_info_a sample_info_b sample_info_c collect_video_eq sample_ids
      sample_seed_eq)

lemma sample_collection_b:
  "collection sample_ydl [query_b] ([], {}) =
     Inr ([sample_video, second_video], {PStr [98, 50], PStr [97, 49]})"
  by (simp add: sample_info_b collect_video_eq sample_ids)

lemma sample_video_valid: "is_valid_video ascii_lower sample_video = Inr True"
  using is_valid_video_rules[OF sample_video_record, of ascii_lower] sample_video_rules
  by simp

lemma second_video_valid: "is_valid_video ascii_lower second_video = Inr True"
proof -
  have "candidate_record second_video"
    by (simp add: second_video_def sample_defs)
  from is_valid_video_rules[OF this, of ascii_lower] show ?thesis
    by (simp add: second_video_def sample_defs)
qed

lemma sample_filter:
  "filter_valid ascii_lower [sample_video, second_video] = Inr [sample_video, second_video]"
  by (simp add: sample_video_valid second_video_valid)

lemma sample_filtered:
  "filtered_videos ascii_lower sample_ydl [query_a, query_b, simple_cooking] sample_seed =
     Inr [sample_video, second_video]"
  by (simp only: filtered_videos_def sample_collection sum.case prod.case sample_filter)

text \<open>
  C2. In the batch of a run no identifier appears twice, and none of them was in the
  seed of seen identifiers, whatever that seed is; in particular the one loaded by
  \<open>get_crawled_video_ids\<close>.
\<close>

theorem filtered_videos_distinct_fresh:
  assumes "filtered_videos lower ydl qs seed = Inr batch"
  shows "distinct (map video_id batch) \<and> (\<forall>v \<in> set batch. video_id v \<notin> seed)"
proof -
  from assms obtain vs ids where c: "collection ydl qs ([], seed) = Inr (vs, ids)"
    and f: "filter_valid lower vs = Inr batch"
    by (auto simp: filtered_videos_def split: sum.splits prod.splits)
  from collection_inv[OF c collect_inv_start]
  have d: "distinct (map video_id vs)" and n: "\<forall>v \<in> set vs. video_id v \<notin> seed"
    by (auto simp: collect_inv_def)
  from filter_valid_filter[OF f] d n show ?thesis
    by (auto simp: distinct_map_filter)
qed

theorem filtered_videos_distinct_fresh_witness:
  "filtered_videos ascii_lower sample_ydl [query_a, query_b, simple_cooking]
     (get_crawled_video_ids (Inr [PStr [111, 108, 100]])) = Inr [sample_video, second_video] \<and>
   distinct (map video_id [sample_video, second_video]) \<and>
   video_id sample_video \<notin> get_crawled_video_ids (Inr [PStr [111, 108, 100]]) \<and>
   video_id second_video \<notin> get_crawled_video_ids (Inr [PStr [111, 108, 100]])"
proof -
  have h: "filtered_videos ascii_lower sample_ydl [query_a, query_b, simple_cooking]
     sample_seed = Inr [sample_video, second_video]"
    by (rule sample_filtered)
  from filtered_videos_distinct_fresh[OF h] h show ?thesis
    by (simp add: sample_seed_def)
qed

text \<open>
  C6. When the extraction raises, \<open>get_video_info\<close> returns the empty list; the
  collection loop and the batch are those of the run over the queries that do not fail.
\<close>

theorem fetch_failure_isolated:
  "(ydl n (search_url query n) = Inl e \<longrightarrow> get_video_info ydl query n = []) \<and>
   collection ydl qs st = collection ydl (filter (\<lambda>q. \<not> fails ydl q) qs) st \<and>
   filtered_videos lower ydl qs seed =
     filtered_videos lower ydl (filter (\<lambda>q. \<not> fails ydl q) qs) seed"
  using collection_skip_failed[of ydl qs]
  by (simp add: get_video_info_def filtered_videos_def)

theorem fetch_failure_isolated_witness:
  "sample_ydl 20 (search_url query_a 20) = Inl DownloadError \<and>
   get_video_info sample_ydl query_a 20 = [] \<and>
   filtered_videos ascii_lower sample_ydl [query_a, query_b] {} =
     filtered_videos ascii_lower sample_ydl [query_b] {} \<and>
   filtered_videos ascii_lower sample_ydl [query_b] {} = Inr [sample_video, second_video]"
proof -
  note t = fetch_failure_isolated[of sample_ydl 20 query_a DownloadError
      "[query_a, query_b]" "([], {})" ascii_lower "{}"]
  from t sample_ydl_a have 1: "get_video_info sample_ydl query_a 20 = []"
    by blast
  from t have "filtered_videos ascii_lower sample_ydl [query_a, query_b] {} =
     filtered_videos ascii_lower sample_ydl
       (filter (\<lambda>q. \<not> fails sample_ydl q) [query_a, query_b]) {}"
    by blast
  then have 2: "filtered_videos ascii_lower sample_ydl [query_a, query_b] {} =
     filtered_videos ascii_lower sample_ydl [query_b] {}"
    by (simp add: sample_fails)
  have 3: "filtered_videos ascii_lower sample_ydl [query_b] {} =
     Inr [sample_video, second_video]"
    by (simp only: filtered_videos_def sample_collection_b sum.case prod.case sample_filter)
  from 1 2 3 sample_ydl_a show ?thesis by blast
qed

text \<open>
  C8. After a pass of the collection loop, a second pass over the same responses, started
  from the set of seen identifiers the first one ended with, collects nothing and leaves
  the set as it is; the batch of the second pass is empty.
\<close>

theorem second_pass_empty:
  assumes "collection ydl qs ([], seed) = Inr (all_videos, seen)"
  shows "collection ydl qs ([], seen) = Inr ([], seen) \<and>
         filtered_videos lower ydl qs seen = Inr []"
proof -
  from collection_seen[OF assms]
  have "\<forall>q \<in> set qs. \<forall>v \<in> set (get_video_info ydl q 20). settled seen v" by simp
  then have "collection ydl qs ([], seen) = Inr ([], seen)" by (rule collection_settled)
  then show ?thesis by (simp add: filtered_videos_def)
qed

theorem second_pass_empty_witness:
  "collection sample_ydl [query_a, query_b, simple_cooking] ([], sample_seed) =
     Inr ([sample_video, second_video], {PStr [98, 50], PStr [97, 49], PStr [111, 108, 100]}) \<and>
   collection sample_ydl [query_a, query_b, simple_cooking]
     ([], {PStr [98, 50], PStr [97, 49], PStr [111, 108, 100]}) =
     Inr ([], {PStr [98, 50], PStr [97, 49], PStr [111, 108, 100]}) \<and>
   filtered_videos ascii_lower sample_ydl [query_a, query_b, simple_cooking]
     {PStr [98, 50], PStr [97, 49], PStr [111, 108, 100]} = Inr []"
  using second_pass_empty[OF sample_collection, of ascii_lower] sample_collection
  by blast

text \<open>
  C9. A record whose identifier is absent or the empty string is skipped: the step of the
  loop leaves the state as it is. So the working collection of a pass holds no such
  record, the set of seen identifiers holds \<open>None\<close> or the empty string only if the
  seed did, and the batch holds no such record.
\<close>

theorem no_identifier_skipped:
  "(no_identifier video \<longrightarrow> collect_video video st = Inr st) \<and>
   (collection ydl qs ([], seed) = Inr (all_videos, seen) \<longrightarrow>
      (\<forall>v \<in> set all_videos. \<not> no_identifier v) \<and>
      (PNone \<in> seen \<longrightarrow> PNone \<in> seed) \<and> (PStr [] \<in> seen \<longrightarrow> PStr [] \<in> seed)) \<and>
   (filtered_videos lower ydl qs seed = Inr batch \<longrightarrow> (\<forall>v \<in> set batch. \<not> no_identifier v))"
proof (intro conjI impI)
  assume "no_identifier video"
  then show "collect_video video st = Inr st"
    by (cases st) (auto simp: no_identifier_def collect_video_eq)
next
  assume c: "collection ydl qs ([], seed) = Inr (all_videos, seen)"
  from collection_inv[OF c collect_inv_start]
  have i: "seen = seed \<union> video_id ` set all_videos"
    "\<forall>v \<in> set all_videos. py_truthy (video_id v)"
    by (auto simp: collect_inv_def)
  from i(2) show "\<forall>v \<in> set all_videos. \<not> no_identifier v"
    by (auto simp: no_identifier_def)
  have nt: "py_truthy x" if "x \<in> video_id ` set all_videos" for x
    using that i(2) by auto
  { assume "PNone \<in> seen"
    with i(1) nt[of PNone] show "PNone \<in> seed" by auto }
  { assume "PStr [] \<in> seen"
    with i(1) nt[of "PStr []"] show "PStr [] \<in> seed" by auto }
next
  assume f: "filtered_videos lower ydl qs seed = Inr batch"
  then obtain vs ids where c: "collection ydl qs ([], seed) = Inr (vs, ids)"
    and f: "filter_valid lower vs = Inr batch"
    by (auto simp: filtered_videos_def split: sum.splits prod.splits)
  from collection_inv[OF c collect_inv_start]
  have "\<forall>v \<in> set vs. py_truthy (video_id v)" by (auto simp: collect_inv_def)
  with filter_valid_filter[OF f] show "\<forall>v \<in> set batch. \<not> no_identifier v"
    by (auto simp: no_identifier_def)
qed

theorem no_identifier_skipped_witness:
  "no_identifier anonymous_video \<and>
   anonymous_video \<in> set (get_video_info sample_ydl simple_cooking 20) \<and>
   collect_video anonymous_video ([], sample_seed) = Inr ([], sample_seed) \<and>
   collection sample_ydl [query_a, query_b, simple_cooking] ([], sample_seed) =
     Inr ([sample_video, second_video], {PStr [98, 50], PStr [97, 49], PStr [111, 108, 100]}) \<and>
   \<not> no_identifier sample_video \<and> \<not> no_identifier second_video \<and>
   PStr [] \<notin> {PStr [98, 50], PStr [97, 49], PStr [111, 108, 100]} \<and>
   filtered_videos ascii_lower sample_ydl [query_a, query_b, simple_cooking] sample_seed =
     Inr [sample_video, second_video]"
proof -
  note t = no_identifier_skipped[of anonymous_video "([], sample_seed)" sample_ydl
      "[query_a, query_b, simple_cooking]" sample_seed "[sample_video, second_video]"
      "{PStr [98, 50], PStr [97, 49], PStr [111, 108, 100]}" ascii_lower
      "[sample_video, second_video]"]
  have a: "no_identifier anonymous_video"
    by (simp add: no_identifier_def sample_ids)
  have m: "anonymous_video \<in> set (get_video_info sample_ydl simple_cooking 20)"
    by (simp add: sample_info_c)
  from t a have 1: "collect_video anonymous_video ([], sample_seed) = Inr ([], sample_seed)"
    by blast
  from t sample_collection
  have 2: "\<forall>v \<in> set [sample_video, second_video]. \<not> no_identifier v"
    and 3: "PStr [] \<in> {PStr [98, 50], PStr [97, 49], PStr [111, 108, 100]}
              \<longrightarrow> PStr [] \<in> sample_seed"
    by blast+
  have "PStr [] \<notin> sample_seed" by (simp add: sample_seed_eq)
  with 3 have 4: "PStr [] \<notin> {PStr [98, 50], PStr [97, 49], PStr [111, 108, 100]}"
    by blast
  from 2 have 5: "\<not> no_identifier sample_video" "\<not> no_identifier second_video"
    by simp_all
  from a m 1 4 5 sample_collection sample_filtered show ?thesis by blast
qed

section \<open>The search queries\<close>

lemma fold_queries:
  "x \<in> fold (\<lambda>query qs. insert (query @ making_suffix) (insert (query @ recipe_suffix) qs))
          base S
   \<longleftrightarrow> x \<in> S \<or> (\<exists>q \<in> set base. x = q @ recipe_suffix \<or> x = q @ making_suffix)"
  by (induction base arbitrary: S) auto

lemma get_search_queries_mem:
  "x \<in> get_search_queries (Inr names) \<longleftrightarrow>
     x = single_cooking \<or> x = simple_cooking \<or>
     (\<exists>q \<in> set names. x = q @ recipe_suffix \<or> x = q @ making_suffix)"
  by (auto simp: get_search_queries_def fold_queries)

lemma get_search_queries_error:
  "get_search_queries (Inl e) = get_search_queries (Inr default_queries)"
  by (simp add: get_search_queries_def)

lemma get_search_queries_no_terms:
  "get_search_queries (Inr []) = {simple_cooking, single_cooking}"
  by (auto simp: get_search_queries_def)

text \<open>
  C3, as stated, fails on the empty vocabulary: nothing replaces it, and the result has
  none of the queries derived from the default terms.
\<close>

theorem get_search_queries_empty_counterexample:
  "[54620, 49885] @ recipe_suffix \<notin> get_search_queries (Inr [])"
  by (simp add: get_search_queries_mem single_cooking_def simple_cooking_def recipe_suffix_def)

text \<open>
  C3, amended. When reading the vocabulary raises, \<open>get_search_queries\<close> takes the three
  default terms instead, and the result holds the two derived queries of each of them
  and the two standalone queries. An empty vocabulary is kept: the result is then the
  two standalone queries alone.
\<close>

theorem get_search_queries_fallback:
  "get_search_queries (Inl e) = get_search_queries (Inr default_queries) \<and>
   (\<forall>q \<in> set default_queries.
      q @ recipe_suffix \<in> get_search_queries (Inl e) \<and>
      q @ making_suffix \<in> get_search_queries (Inl e)) \<and>
   simple_cooking \<in> get_search_queries (Inl e) \<and>
   single_cooking \<in> get_search_queries (Inl e) \<and>
   get_search_queries (Inr []) = {simple_cooking, single_cooking}"
  unfolding get_search_queries_error using get_search_queries_no_terms
  by (auto simp: get_search_queries_mem)

theorem get_search_queries_fallback_witness:
  "[54620, 49885] \<in> set default_queries \<and>
   [54620, 49885] @ recipe_suffix \<in> get_search_queries (Inl DatabaseError) \<and>
   [54620, 49885] @ making_suffix \<in> get_search_queries (Inl DatabaseError)"
proof -
  have h: "[54620, 49885] \<in> set default_queries" by (simp add: default_queries_def)
  from get_search_queries_fallback[of DatabaseError] h show ?thesis by blast
qed

section \<open>Writing the output\<close>


text \<open>A run without failure writes the whole document.\<close>

lemma write_chunks_complete:
  "write_chunks enc room chunks content = (Inr (), content') \<Longrightarrow>
   content' = content @ encoded_bytes enc chunks \<and> (\<forall>c \<in> set chunks. \<exists>bytes. enc c = Inr bytes)"
proof (induction chunks arbitrary: content)
  case Nil
  then show ?case by simp
next
  case (Cons c cs)
  from Cons.prems obtain bytes where b: "enc c = Inr bytes"
    by (cases "enc c") auto
  with Cons.prems have "write_chunks enc room cs (content @ bytes) = (Inr (), content')"
    by (auto split: option.splits if_splits)
  from Cons.IH[OF this] b show ?case by simp
qed

subsection \<open>Examples of the encoding and of the device\<close>

lemma utf8_ascii: "utf8 [91, 93] = Inr [91, 93]"
  by (simp add: utf8_char_def)

lemma utf8_hangul: "utf8 [54620, 49885] = Inr [237, 149, 156, 236, 139, 157]"
  by (simp add: utf8_char_def)

lemma utf8_surrogate: "utf8 [97, 55357] = Inl UnicodeEncodeError"
  by (simp add: utf8_char_def)

text \<open>
  A document that starts with the chunk of an opening bracket, a newline and four spaces,
  on a device that takes three bytes: the file is cut inside the chunk.
\<close>

lemma write_output_cut_in_chunk:
  "write_output True utf8 (Some 3) ([91, 10, 32, 32, 32, 32] # chunks) file =
     (Inl OSError, Some [91, 10, 32])"
  by (simp add: write_output_def utf8_char_def)

text \<open>A title in Hangul on a device that takes four bytes: cut inside a character.\<close>

lemma write_output_cut_in_character:
  "write_output True utf8 (Some 4) [[54620, 49885]] file = (Inl OSError, Some [237, 149, 156, 236])"
  by (simp add: write_output_def utf8_char_def)








end
